theory Spec2Isabelle
  imports Complex_Main "HOL-Library.Sublist" "HOL-Library.Multiset" "HOL-Library.Product_Lexorder"
    "HOL-Library.Log_Nat"
begin

section \<open>Python values\<close>

text \<open>
  A Python \<open>str\<close> is a sequence of Unicode code points; it is modelled as the list of
  its code points, so that iteration, slicing and the character-range tests of the
  sources count what Python counts. \<open>S\<close> reads an ASCII literal of the sources.
\<close>

type_synonym pystr = "nat list"

definition S :: "string \<Rightarrow> pystr" where
  "S s = map of_char s"

datatype py_error = TypeError | ZeroDivisionError

text \<open>
  A Python \<open>float\<close> is an IEEE 754 binary64 number. \<open>Fin s m\<close> is the finite number with
  sign \<open>s\<close> (\<open>True\<close> for minus) and magnitude \<open>m \<ge> 0\<close>, so that \<open>Fin False 0\<close> and \<open>Fin True 0\<close>
  are the two zeros; \<open>Inf s\<close> is an infinity.
\<close>

datatype pyfloat = Fin bool rat | Inf bool | NaN

section \<open>scripts/docs/generate_docs.py: \<open>annotation_to_string\<close>\<close>

text \<open>
  The annotation handed to \<open>annotation_to_string\<close> is what \<open>json.loads\<close> produced from
  the Griffe dump: \<open>None\<close>, a bool, a number, a \<open>str\<close>, a list, or a dict with string
  keys (kept as an association list in insertion order).
\<close>

datatype pyval =
    PNone
  | PBool bool
  | PInt int
  | PFloat pyfloat
  | PStr pystr
  | PList "pyval list"
  | PDict "(pystr \<times> pyval) list"

text \<open>\<open>d.get(k, default)\<close> and \<open>k in d\<close> on a dict.\<close>

definition dict_get :: "(pystr \<times> pyval) list \<Rightarrow> pystr \<Rightarrow> pyval \<Rightarrow> pyval" where
  "dict_get d k dflt = (case map_of d k of None \<Rightarrow> dflt | Some v \<Rightarrow> v)"

definition dict_has :: "(pystr \<times> pyval) list \<Rightarrow> pystr \<Rightarrow> bool" where
  "dict_has d k = (map_of d k \<noteq> None)"

text \<open>
  \<open>for e in v\<close>: a list yields its items, a \<open>str\<close> its one-character strings, a dict its
  keys; \<open>None\<close>, bools and numbers are not iterable (\<open>TypeError\<close>).
\<close>

fun py_iter :: "pyval \<Rightarrow> py_error + pyval list" where
  "py_iter (PList es) = Inr es"
| "py_iter (PStr s) = Inr (map (\<lambda>c. PStr [c]) s)"
| "py_iter (PDict d) = Inr (map (\<lambda>kv. PStr (fst kv)) d)"
| "py_iter _ = Inl TypeError"

text \<open>The results of the calls a generator expression makes, up to the first exception.\<close>

fun collect :: "(py_error + 'a) list \<Rightarrow> py_error + 'a list" where
  "collect [] = Inr []"
| "collect (Inl e # _) = Inl e"
| "collect (Inr x # rs) = (case collect rs of Inl e \<Rightarrow> Inl e | Inr xs \<Rightarrow> Inr (x # xs))"

text \<open>
  A replacement field \<open>{v}\<close> of an f-string is \<open>format(v, "")\<close>: a \<open>str\<close> is inserted as it
  is, every other value as \<open>str(v)\<close>. Python's \<open>str\<close> on the values that are not strings is
  the builtin, taken as the parameter \<open>str_other\<close>.
\<close>

definition fmt :: "(pyval \<Rightarrow> pystr) \<Rightarrow> pyval \<Rightarrow> pystr" where
  "fmt str_other v = (case v of PStr s \<Rightarrow> s | _ \<Rightarrow> str_other v)"

text \<open>\<open>sep.join(items)\<close>: every item must be a \<open>str\<close>.\<close>

fun join :: "pystr \<Rightarrow> pyval list \<Rightarrow> py_error + pystr" where
  "join sep [] = Inr []"
| "join sep [PStr s] = Inr s"
| "join sep (PStr s # vs) =
     (case join sep vs of Inl e \<Rightarrow> Inl e | Inr r \<Rightarrow> Inr (s @ sep @ r))"
| "join sep (_ # vs) = Inl TypeError"

text \<open>What a dict holds, and what iterating it yields, is smaller than the dict.\<close>

lemma size_dict_get:
  "map_of d k = Some v \<Longrightarrow> size v < size (PDict d)"
  by (induction d) (auto split: if_splits)

lemma size_py_iter:
  "py_iter v = Inr es \<Longrightarrow> e \<in> set es \<Longrightarrow> size e \<le> size v"
proof (cases v)
  case (PList vs)
  assume "py_iter v = Inr es" "e \<in> set es"
  with PList have "e \<in> set vs" by simp
  then have "size e \<le> size_list size vs" by (induction vs) auto
  with PList show ?thesis by simp
qed auto

lemma size_dict_get_default:
  "size dflt < size (PDict d) \<Longrightarrow> size (dict_get d k dflt) < size (PDict d)"
  using size_dict_get [of d k] by (auto simp: dict_get_def split: option.splits)

lemma size_dict_get_None: "size (dict_get d k PNone) < size (PDict d)"
  by (rule size_dict_get_default) simp

lemma size_elements:
  assumes "py_iter (dict_get d k (PList [])) = Inr es" and "e \<in> set es"
  shows "size e < size (PDict d)"
proof (cases "map_of d k")
  case None
  with assms show ?thesis by (simp add: dict_get_def)
next
  case (Some v)
  with assms have "size e \<le> size v" by (auto simp: dict_get_def dest: size_py_iter)
  with size_dict_get [OF Some] show ?thesis by simp
qed

text \<open>
  The function returns whatever the branch produces: a \<open>str\<close> on the annotations Griffe
  writes, and the stored value itself where \<open>name\<close> or \<open>canonical\<close> holds something else.
\<close>

function annotation_to_string :: "(pyval \<Rightarrow> pystr) \<Rightarrow> pyval \<Rightarrow> py_error + pyval" where
  "annotation_to_string str_other PNone = Inr (PStr [])"
| "annotation_to_string str_other (PStr s) = Inr (PStr s)"
| "annotation_to_string str_other (PBool b) = Inr (PStr (str_other (PBool b)))"
| "annotation_to_string str_other (PInt i) = Inr (PStr (str_other (PInt i)))"
| "annotation_to_string str_other (PFloat x) = Inr (PStr (str_other (PFloat x)))"
| "annotation_to_string str_other (PList vs) = Inr (PStr (str_other (PList vs)))"
| "annotation_to_string str_other (PDict d) =
     (let cls = dict_get d (S ''cls'') (PStr []) in
      if cls = PStr (S ''ExprName'') then Inr (dict_get d (S ''name'') (PStr []))
      else if cls = PStr (S ''ExprBinOp'') then
        (case annotation_to_string str_other (dict_get d (S ''left'') PNone) of
           Inl e \<Rightarrow> Inl e
         | Inr left \<Rightarrow>
             (case annotation_to_string str_other (dict_get d (S ''right'') PNone) of
                Inl e \<Rightarrow> Inl e
              | Inr right \<Rightarrow>
                  Inr (PStr (fmt str_other left @ S '' ''
                             @ fmt str_other (dict_get d (S ''operator'') (PStr (S ''|'')))
                             @ S '' '' @ fmt str_other right))))
      else if cls = PStr (S ''ExprSubscript'') then
        (case annotation_to_string str_other (dict_get d (S ''left'') PNone) of
           Inl e \<Rightarrow> Inl e
         | Inr left \<Rightarrow>
             (case annotation_to_string str_other (dict_get d (S ''slice'') PNone) of
                Inl e \<Rightarrow> Inl e
              | Inr slice_val \<Rightarrow>
                  Inr (PStr (fmt str_other left @ S ''['' @ fmt str_other slice_val @ S '']''))))
      else if cls = PStr (S ''ExprTuple'') then
        (case py_iter (dict_get d (S ''elements'') (PList [])) of
           Inl e \<Rightarrow> Inl e
         | Inr elements \<Rightarrow>
             (case collect (map (annotation_to_string str_other) elements) of
                Inl e \<Rightarrow> Inl e
              | Inr strs \<Rightarrow>
                  (case join (S '', '') strs of
                     Inl e \<Rightarrow> Inl e
                   | Inr items \<Rightarrow> Inr (PStr (S ''('' @ items @ S '')'')))))
      else if cls = PStr (S ''ExprList'') then
        (case py_iter (dict_get d (S ''elements'') (PList [])) of
           Inl e \<Rightarrow> Inl e
         | Inr elements \<Rightarrow>
             (case collect (map (annotation_to_string str_other) elements) of
                Inl e \<Rightarrow> Inl e
              | Inr strs \<Rightarrow>
                  (case join (S '', '') strs of
                     Inl e \<Rightarrow> Inl e
                   | Inr items \<Rightarrow> Inr (PStr (S ''['' @ items @ S '']'')))))
      else if dict_has d (S ''canonical'') then Inr (dict_get d (S ''canonical'') PNone)
      else if dict_has d (S ''name'') then Inr (dict_get d (S ''name'') PNone)
      else Inr (PStr []))"
  by pat_completeness auto

text \<open>
  \<open>annotation_to_string_rel call caller\<close> is the call relation of the definition: the
  function, run on \<open>caller\<close>, calls itself on \<open>call\<close>. Every such call is on a value stored
  inside the dict it is made for, so the size of the value decreases.
\<close>

lemma annotation_to_string_rel_size:
  "annotation_to_string_rel call caller \<Longrightarrow> size (snd call) < size (snd caller)"
  by (erule annotation_to_string_rel.cases)
     (simp_all del: pyval.size add: size_dict_get_None size_elements)

lemma annotation_to_string_wf: "wfp annotation_to_string_rel"
  by (rule wfp_if_convertible_to_nat [where f = "\<lambda>c. size (snd c)"])
     (rule annotation_to_string_rel_size)

termination annotation_to_string
proof -
  have "\<forall>x. annotation_to_string_dom x"
    using annotation_to_string_wf by (simp add: wfp_iff_accp)
  then show "All annotation_to_string_dom" .
qed

text \<open>
  C10: \<open>annotation_to_string\<close> terminates on every finite annotation value: the call
  relation on the \<open>left\<close>, \<open>right\<close>, \<open>slice\<close> and \<open>elements\<close> fields is well-founded, so every
  value is in its accessible part. It returns the empty string for \<open>None\<close> and returns a
  string argument unchanged.
\<close>

theorem annotation_to_string_terminates:
  "wfp annotation_to_string_rel
   \<and> annotation_to_string_dom (str_other, annotation)
   \<and> annotation_to_string str_other PNone = Inr (PStr [])
   \<and> annotation_to_string str_other (PStr s) = Inr (PStr s)"
  using annotation_to_string_wf accp_wfpD [OF annotation_to_string_wf] by simp

lemma annotation_to_string_example:
  "annotation_to_string str_other
     (PDict [(S ''cls'', PStr (S ''ExprSubscript'')),
             (S ''left'', PDict [(S ''cls'', PStr (S ''ExprName'')), (S ''name'', PStr (S ''dict''))]),
             (S ''slice'', PDict [(S ''cls'', PStr (S ''ExprTuple'')),
                (S ''elements'', PList [PStr (S ''str''), PDict [(S ''name'', PStr (S ''Any''))]])])])
   = Inr (PStr (S ''dict[(str, Any)]''))"
  by (simp add: S_def dict_get_def dict_has_def fmt_def)

section \<open>site/scripts/create_terminal_gif.py: \<open>has_hebrew\<close> and \<open>extract_hebrew\<close>\<close>

subsection \<open>Regular expressions as \<open>re.search\<close> runs them\<close>

text \<open>
  The fragment of Python's regular expressions the pattern of \<open>extract_hebrew\<close> uses: a
  character class, concatenation, and the greedy repetitions \<open>+\<close> and \<open>*\<close> (groups only
  delimit, and \<open>group()\<close> is the whole match). \<open>ends r xs\<close> lists, in the order in which the
  backtracking matcher tries them, the remainders of \<open>xs\<close> after each way \<open>r\<close> matches a
  prefix of \<open>xs\<close>: a greedy repetition tries one more iteration before it tries to stop,
  and an iteration has to consume a character.
\<close>

datatype regex = Cls "nat \<Rightarrow> bool" | Seq regex regex | Plus regex | Star regex

fun weight :: "regex \<Rightarrow> nat" where
  "weight (Cls p) = 0"
| "weight (Seq r1 r2) = Suc (weight r1 + weight r2)"
| "weight (Plus r) = Suc (Suc (weight r))"
| "weight (Star r) = Suc (weight r)"

function ends :: "regex \<Rightarrow> pystr \<Rightarrow> pystr list" where
  "ends (Cls p) [] = []"
| "ends (Cls p) (c # cs) = (if p c then [cs] else [])"
| "ends (Seq r1 r2) xs = concat (map (ends r2) (ends r1 xs))"
| "ends (Plus r) xs = concat (map (ends (Star r)) (ends r xs))"
| "ends (Star r) xs =
     concat (map (\<lambda>ys. if length ys < length xs then ends (Star r) ys else []) (ends r xs))
     @ [xs]"
  by pat_completeness auto
termination
  by (relation "measures [\<lambda>(r, xs). weight r, \<lambda>(r, xs). length xs]") auto

lemmas ends_Star = ends.simps(5)

declare ends.simps(5) [simp del]

text \<open>
  \<open>re.search\<close> tries the start positions from left to right and returns the span of the
  first match the matcher finds at the first position that has one.
\<close>

fun search :: "regex \<Rightarrow> pystr \<Rightarrow> nat \<Rightarrow> (nat \<times> nat) option" where
  "search r xs pos =
     (case ends r xs of
        e # _ \<Rightarrow> Some (pos, pos + (length xs - length e))
      | [] \<Rightarrow> (case xs of [] \<Rightarrow> None | _ # xs' \<Rightarrow> search r xs' (Suc pos)))"

lemmas search_unfold = search.simps

declare search.simps [simp del]

subsection \<open>The two functions\<close>

text \<open>
  \<open>\s\<close> in a \<open>str\<close> pattern is Unicode white space. The pattern of \<open>extract_hebrew\<close> is
  \<^verbatim>\<open>([H]+(?:[\s\-M][H]+)*)\<close> with \<open>H\<close> the ranges U+0590-U+05FF, U+FB1D-U+FB4F and
  U+0591-U+05C7, and \<open>M\<close> the maqaf U+05BE.
\<close>

definition is_space :: "nat \<Rightarrow> bool" where
  "is_space c \<longleftrightarrow>
     (0x09 \<le> c \<and> c \<le> 0x0D) \<or> (0x1C \<le> c \<and> c \<le> 0x20) \<or> c = 0x85 \<or> c = 0xA0
     \<or> c = 0x1680 \<or> (0x2000 \<le> c \<and> c \<le> 0x200A) \<or> c = 0x2028 \<or> c = 0x2029
     \<or> c = 0x202F \<or> c = 0x205F \<or> c = 0x3000"

definition hebrew_class :: "nat \<Rightarrow> bool" where
  "hebrew_class c \<longleftrightarrow>
     (0x0590 \<le> c \<and> c \<le> 0x05FF) \<or> (0xFB1D \<le> c \<and> c \<le> 0xFB4F)
     \<or> (0x0591 \<le> c \<and> c \<le> 0x05C7)"

definition joiner_class :: "nat \<Rightarrow> bool" where
  "joiner_class c \<longleftrightarrow> is_space c \<or> c = 0x2D \<or> c = 0x05BE"

definition pattern :: regex where
  "pattern = Seq (Plus (Cls hebrew_class))
                 (Star (Seq (Cls joiner_class) (Plus (Cls hebrew_class))))"

definition has_hebrew :: "pystr \<Rightarrow> bool" where
  "has_hebrew text =
     list_ex (\<lambda>char. (0x0590 \<le> char \<and> char \<le> 0x05FF) \<or> (0xFB1D \<le> char \<and> char \<le> 0xFB4F)) text"

definition extract_hebrew :: "pystr \<Rightarrow> pystr \<times> pystr \<times> pystr" where
  "extract_hebrew text =
     (case search pattern text 0 of
        Some (start, end) \<Rightarrow> (take start text, take (end - start) (drop start text), drop end text)
      | None \<Rightarrow> (text, [], []))"

subsection \<open>Properties of the matcher\<close>

lemma ends_suffix: "ys \<in> set (ends r xs) \<Longrightarrow> suffix ys xs"
proof (induction r xs arbitrary: ys rule: ends.induct)
  case (1 p)
  then show ?case by simp
next
  case (2 p c cs)
  then show ?case by (simp add: suffix_Cons split: if_splits)
next
  case (3 r1 r2 xs)
  from 3(3) obtain zs where zs: "zs \<in> set (ends r1 xs)" "ys \<in> set (ends r2 zs)" by auto
  from 3(1) [OF zs(1)] 3(2) [OF zs] show ?case by (rule suffix_order.trans [rotated])
next
  case (4 r xs)
  from 4(3) obtain zs where zs: "zs \<in> set (ends r xs)" "ys \<in> set (ends (Star r) zs)" by auto
  from 4(1) [OF zs(1)] 4(2) [OF zs] show ?case by (rule suffix_order.trans [rotated])
next
  case (5 r xs)
  show ?case
  proof (cases "ys = xs")
    case True
    then show ?thesis by simp
  next
    case False
    with 5(3) obtain zs where zs: "zs \<in> set (ends r xs)" "length zs < length xs"
        "ys \<in> set (ends (Star r) zs)"
      by (auto simp: ends_Star [of r xs] split: if_splits)
    from 5(1) [OF zs(1)] 5(2) [OF zs] show ?thesis by (rule suffix_order.trans [rotated])
  qed
qed

lemma ends_length: "ys \<in> set (ends r xs) \<Longrightarrow> length ys \<le> length xs"
  by (drule ends_suffix) (rule suffix_length_le)

lemma ends_Star_last: "xs \<in> set (ends (Star r) xs)"
  by (subst ends_Star) simp

lemma ends_Star_nonempty: "ends (Star r) xs \<noteq> []"
  by (subst ends_Star) simp

lemma ends_Plus_Cls:
  "ends (Plus (Cls p)) xs = (case xs of [] \<Rightarrow> [] | c # cs \<Rightarrow> if p c then ends (Star (Cls p)) cs else [])"
  by (cases xs) simp_all

lemma ends_Plus_Cls_shorter:
  "ys \<in> set (ends (Plus (Cls p)) xs) \<Longrightarrow> length ys < length xs"
  by (cases xs) (auto simp del: ends.simps simp: ends_Plus_Cls split: if_splits dest: ends_length)

lemma ends_Seq_Star_nonempty:
  "ends (Seq r1 (Star r2)) xs \<noteq> [] \<longleftrightarrow> ends r1 xs \<noteq> []"
  by (cases "ends r1 xs") (simp_all add: ends_Star_nonempty)

lemma ends_Seq_shorter:
  assumes "\<And>zs. zs \<in> set (ends r1 xs) \<Longrightarrow> length zs < length xs"
    and "ys \<in> set (ends (Seq r1 r2) xs)"
  shows "length ys < length xs"
proof -
  from assms(2) obtain zs where zs: "zs \<in> set (ends r1 xs)" "ys \<in> set (ends r2 zs)" by auto
  from assms(1) [OF zs(1)] ends_length [OF zs(2)] show ?thesis by simp
qed

lemma ends_pattern_nonempty:
  "ends pattern xs \<noteq> [] \<longleftrightarrow> (case xs of [] \<Rightarrow> False | c # cs \<Rightarrow> hebrew_class c)"
  unfolding pattern_def ends_Seq_Star_nonempty ends_Plus_Cls
  by (cases xs) (simp_all add: ends_Star_nonempty)

lemma ends_pattern_shorter:
  "ys \<in> set (ends pattern xs) \<Longrightarrow> length ys < length xs"
  unfolding pattern_def by (erule ends_Seq_shorter [rotated]) (rule ends_Plus_Cls_shorter)

lemma search_None:
  "search pattern xs pos = None \<longleftrightarrow> \<not> list_ex hebrew_class xs"
proof (induction xs arbitrary: pos)
  case Nil
  have "ends pattern [] = []" using ends_pattern_nonempty [of "[]"] by simp
  then show ?case by (simp add: search_unfold [of pattern "[]"])
next
  case (Cons c cs)
  show ?case
  proof (cases "ends pattern (c # cs)")
    case Nil
    with ends_pattern_nonempty [of "c # cs"] have "\<not> hebrew_class c" by simp
    with Nil Cons show ?thesis by (simp add: search_unfold [of pattern "c # cs"])
  next
    case (Cons e es)
    with ends_pattern_nonempty [of "c # cs"] have "hebrew_class c" by simp
    with Cons show ?thesis by (simp add: search_unfold [of pattern "c # cs"])
  qed
qed

lemma search_span:
  "search pattern xs pos = Some (start, end) \<Longrightarrow>
     pos \<le> start \<and> start < end \<and> end \<le> pos + length xs"
proof (induction xs arbitrary: pos)
  case Nil
  have "ends pattern [] = []" using ends_pattern_nonempty [of "[]"] by simp
  with Nil show ?case by (simp add: search_unfold [of pattern "[]"])
next
  case (Cons c cs)
  show ?case
  proof (cases "ends pattern (c # cs)")
    case Nil
    with Cons.prems have "search pattern cs (Suc pos) = Some (start, end)"
      by (simp add: search_unfold [of pattern "c # cs"])
    from Cons.IH [OF this] show ?thesis by simp
  next
    case (Cons e es)
    then have "e \<in> set (ends pattern (c # cs))" by simp
    from ends_pattern_shorter [OF this] have "length e < length (c # cs)" .
    with Cons Cons.prems show ?thesis
      by (auto simp add: search_unfold [of pattern "c # cs"])
  qed
qed

lemma has_hebrew_class: "has_hebrew text \<longleftrightarrow> list_ex hebrew_class text"
proof -
  have "hebrew_class = (\<lambda>char. (0x0590 \<le> char \<and> char \<le> 0x05FF) \<or> (0xFB1D \<le> char \<and> char \<le> 0xFB4F))"
    by (auto simp: hebrew_class_def fun_eq_iff)
  then show ?thesis by (simp add: has_hebrew_def)
qed

lemma slice_concat:
  "start \<le> end \<Longrightarrow> end \<le> length (text :: 'a list) \<Longrightarrow>
     take start text @ take (end - start) (drop start text) @ drop end text = text"
proof -
  assume a: "start \<le> end" "end \<le> length text"
  have "take (end - start) (drop start text) @ drop end text = drop start text"
    using a by (metis append_take_drop_id drop_drop le_add_diff_inverse2)
  then show ?thesis by simp
qed

subsection \<open>Running the matcher\<close>

text \<open>
  The equation of \<open>ends\<close> for \<open>*\<close> with the recursive call under a name, so that the
  simplifier unfolds it only at a concrete remainder.
\<close>

definition star_step :: "regex \<Rightarrow> pystr \<Rightarrow> pystr \<Rightarrow> pystr list" where
  "star_step r xs ys = (if length ys < length xs then ends (Star r) ys else [])"

lemma ends_Star_step: "ends (Star r) xs = concat (map (star_step r xs) (ends r xs)) @ [xs]"
  by (subst ends_Star) (simp add: star_step_def [abs_def])

lemmas run_extract_hebrew = extract_hebrew_def search_unfold pattern_def ends_Star_step
  star_step_def hebrew_class_def joiner_class_def is_space_def S_def has_hebrew_def

text \<open>
  A verse reference around two pointed Hebrew words joined by a space; a text with no
  Hebrew; and a hyphen that is not followed by Hebrew, which ends the match.
\<close>

lemma extract_hebrew_example:
  "extract_hebrew (S ''v1: '' @ [0x05D1, 0x05BC, 0x05B0, 0x05E8, 0x20, 0x05D1, 0x05B8] @ S '' (Gen 1)'')
   = (S ''v1: '', [0x05D1, 0x05BC, 0x05B0, 0x05E8, 0x20, 0x05D1, 0x05B8], S '' (Gen 1)'')"
  by (simp add: run_extract_hebrew)

lemma extract_hebrew_no_hebrew:
  "extract_hebrew (S ''no hebrew'') = (S ''no hebrew'', [], [])"
  by (simp add: run_extract_hebrew)

lemma extract_hebrew_hyphen:
  "extract_hebrew ([0x05D0, 0x2D, 0x05D1, 0x2D] @ S ''x'' @ [0x05D2])
   = ([], [0x05D0, 0x2D, 0x05D1], [0x2D] @ S ''x'' @ [0x05D2])"
  by (simp add: run_extract_hebrew)

lemma has_hebrew_example:
  "has_hebrew (S ''a'' @ [0x05D0]) \<and> \<not> has_hebrew (S ''abc'')"
  by (simp add: run_extract_hebrew)

text \<open>
  C9: for every string \<open>s\<close>, \<open>extract_hebrew s\<close> is a triple \<open>(before, hebrew, after)\<close> with
  \<open>before + hebrew + after = s\<close>, and \<open>hebrew\<close> is non-empty exactly when \<open>has_hebrew s\<close> holds.
\<close>

theorem extract_hebrew_partition:
  "(case extract_hebrew s of (before, hebrew, after) \<Rightarrow>
      before @ hebrew @ after = s \<and> (hebrew \<noteq> [] \<longleftrightarrow> has_hebrew s))"
proof (cases "search pattern s 0")
  case None
  then have "\<not> has_hebrew s" by (simp add: search_None has_hebrew_class)
  with None show ?thesis by (simp add: extract_hebrew_def)
next
  case (Some span)
  obtain start "end" where span: "span = (start, end)" by (cases span)
  from Some span search_span [of s 0 start "end"]
  have b: "start < end" "end \<le> length s" by simp_all
  from Some have "has_hebrew s"
    using search_None [of s 0] by (simp add: has_hebrew_class)
  moreover have "take (end - start) (drop start s) \<noteq> []" using b by simp
  moreover have "take start s @ take (end - start) (drop start s) @ drop end s = s"
    using b by (intro slice_concat) simp_all
  ultimately show ?thesis using Some span by (simp add: extract_hebrew_def)
qed

section \<open>benchmarks/compare_performance.py: \<open>create_results_table\<close>\<close>

subsection \<open>Float arithmetic\<close>

text \<open>
  The fields of \<open>BenchmarkResult\<close> and the cells of the data frame are floats.
\<close>

text \<open>
  Rounding to nearest, ties to even. The finite magnitudes of the format are the numbers
  \<open>n * 2 ^ q / 2 ^ 1074\<close> with \<open>n < 2 ^ 53\<close>, the spacing \<open>2 ^ q / 2 ^ 1074\<close> being the smallest one
  (\<open>q = 0\<close>) up to \<open>2 ^ 53 / 2 ^ 1074\<close> and doubling with each further bit of the magnitude.
  \<open>round_mag m\<close> rounds \<open>m \<ge> 0\<close> to the nearest multiple of its spacing; a result of
  \<open>2 ^ 1024\<close> or more overflows to infinity (\<open>mk_float\<close>).
\<close>

definition round_half_even :: "rat \<Rightarrow> int" where
  "round_half_even q =
     (let f = \<lfloor>q\<rfloor>; r = q - of_int f
      in if r < 1 / 2 then f else if 1 / 2 < r then f + 1 else if even f then f else f + 1)"

definition quantum :: "rat \<Rightarrow> nat" where
  "quantum m = nat (bitlen \<lfloor>m * 2 ^ 1074\<rfloor> - 53)"

definition round_mag :: "rat \<Rightarrow> rat" where
  "round_mag m =
     of_int (round_half_even (m * 2 ^ 1074 / 2 ^ quantum m)) * 2 ^ quantum m / 2 ^ 1074"

definition mk_float :: "bool \<Rightarrow> rat \<Rightarrow> pyfloat" where
  "mk_float s m = (let y = round_mag m in if y < 2 ^ 1024 then Fin s y else Inf s)"

text \<open>
  The arithmetic of the format: every operation returns the exact result rounded, with
  the special cases of the standard for zeros, infinities and \<open>NaN\<close>. A difference that is
  exactly zero is \<open>+0.0\<close>, except \<open>-0.0 - 0.0\<close>. A comparison with \<open>NaN\<close> is false.
\<close>

fun signed :: "bool \<Rightarrow> rat \<Rightarrow> rat" where
  "signed s m = (if s then - m else m)"

fun is_zero :: "pyfloat \<Rightarrow> bool" where
  "is_zero (Fin s m) = (m = 0)"
| "is_zero _ = False"

fun float_neg :: "pyfloat \<Rightarrow> pyfloat" where
  "float_neg (Fin s m) = Fin (\<not> s) m"
| "float_neg (Inf s) = Inf (\<not> s)"
| "float_neg NaN = NaN"

fun float_add :: "pyfloat \<Rightarrow> pyfloat \<Rightarrow> pyfloat" where
  "float_add NaN _ = NaN"
| "float_add _ NaN = NaN"
| "float_add (Inf s) (Inf t) = (if s = t then Inf s else NaN)"
| "float_add (Inf s) (Fin t n) = Inf s"
| "float_add (Fin s m) (Inf t) = Inf t"
| "float_add (Fin s m) (Fin t n) =
     (let r = signed s m + signed t n
      in if r = 0 then Fin (s \<and> t) 0 else mk_float (r < 0) \<bar>r\<bar>)"

definition float_sub :: "pyfloat \<Rightarrow> pyfloat \<Rightarrow> pyfloat" where
  "float_sub a b = float_add a (float_neg b)"

fun float_mul :: "pyfloat \<Rightarrow> pyfloat \<Rightarrow> pyfloat" where
  "float_mul NaN _ = NaN"
| "float_mul _ NaN = NaN"
| "float_mul (Inf s) (Inf t) = Inf (s \<noteq> t)"
| "float_mul (Inf s) (Fin t n) = (if n = 0 then NaN else Inf (s \<noteq> t))"
| "float_mul (Fin s m) (Inf t) = (if m = 0 then NaN else Inf (s \<noteq> t))"
| "float_mul (Fin s m) (Fin t n) = mk_float (s \<noteq> t) (m * n)"

fun float_div :: "pyfloat \<Rightarrow> pyfloat \<Rightarrow> pyfloat" where
  "float_div NaN _ = NaN"
| "float_div _ NaN = NaN"
| "float_div (Inf s) (Inf t) = NaN"
| "float_div (Inf s) (Fin t n) = Inf (s \<noteq> t)"
| "float_div (Fin s m) (Inf t) = Fin (s \<noteq> t) 0"
| "float_div (Fin s m) (Fin t n) =
     (if n = 0 then (if m = 0 then NaN else Inf (s \<noteq> t)) else mk_float (s \<noteq> t) (m / n))"

fun float_gt :: "pyfloat \<Rightarrow> pyfloat \<Rightarrow> bool" where
  "float_gt NaN _ = False"
| "float_gt _ NaN = False"
| "float_gt (Inf s) (Inf t) = (\<not> s \<and> t)"
| "float_gt (Inf s) (Fin t n) = (\<not> s)"
| "float_gt (Fin s m) (Inf t) = t"
| "float_gt (Fin s m) (Fin t n) = (signed t n < signed s m)"

text \<open>
  The cells \<open>df.iloc[i][column]\<close> that the loop reads are \<open>numpy.float64\<close> scalars: their
  division raises nothing, a zero divisor giving the infinity or \<open>NaN\<close> of the standard
  (with a warning), which is \<open>float_div\<close>. \<open>ratio\<close> and \<open>reduction\<close> hold such a float,
  or the \<open>int\<close> \<open>0\<close> of the \<open>else 0\<close> alternative. \<open>num_gt x k\<close> is \<open>x > k\<close> for an \<open>int\<close>
  literal \<open>k\<close>, \<open>num_neg x\<close> is \<open>-x\<close>, and \<open>reciprocal x\<close> is \<open>1 / x\<close>, which raises
  \<open>ZeroDivisionError\<close> on the \<open>int\<close> \<open>0\<close> and on nothing else.
\<close>

datatype pynum = PyInt int | PyFloat pyfloat

fun num_gt :: "pynum \<Rightarrow> int \<Rightarrow> bool" where
  "num_gt (PyInt i) k = (k < i)"
| "num_gt (PyFloat x) k = float_gt x (Fin (k < 0) \<bar>of_int k\<bar>)"

fun num_is_zero :: "pynum \<Rightarrow> bool" where
  "num_is_zero (PyInt i) = (i = 0)"
| "num_is_zero (PyFloat x) = is_zero x"

fun num_neg :: "pynum \<Rightarrow> pynum" where
  "num_neg (PyInt i) = PyInt (- i)"
| "num_neg (PyFloat x) = PyFloat (float_neg x)"

fun reciprocal :: "pynum \<Rightarrow> py_error + pynum" where
  "reciprocal (PyInt i) =
     (if i = 0 then Inl ZeroDivisionError
      else Inr (PyFloat (mk_float (i < 0) (1 / \<bar>of_int i\<bar>))))"
| "reciprocal (PyFloat x) = Inr (PyFloat (float_div (Fin False 1) x))"

subsection \<open>The function\<close>

text \<open>The dataclass and its property \<open>memory_used\<close>.\<close>

record BenchmarkResult =
  name :: pystr
  compile_time :: pyfloat
  load_time :: pyfloat
  memory_before :: pyfloat
  memory_after :: pyfloat
  cache_size :: pyfloat

definition memory_used :: "BenchmarkResult \<Rightarrow> pyfloat" where
  "memory_used r = float_sub (memory_after r) (memory_before r)"

text \<open>\<open>sub in text\<close> on strings: \<open>sub\<close> occurs in \<open>text\<close> as a contiguous slice.\<close>

fun contains :: "pystr \<Rightarrow> pystr \<Rightarrow> bool" where
  "contains sub [] = (sub = [])"
| "contains sub (c # cs) = (prefix sub (c # cs) \<or> contains sub cs)"

text \<open>
  The three guarded expressions of the loop body: \<open>tf_val / cf_val if cf_val > 0 else 0\<close>
  for a time, \<open>(1 - cf_val / tf_val) * 100 if tf_val > 0 else 0\<close> for the memory, and
  \<open>cf_val / tf_val if tf_val > 0 else 0\<close> for the cache size. The guard makes the divisor
  non-zero, so the division itself raises nothing.
\<close>

definition time_ratio :: "pyfloat \<Rightarrow> pyfloat \<Rightarrow> pynum" where
  "time_ratio tf_val cf_val =
     (if float_gt cf_val (Fin False 0) then PyFloat (float_div tf_val cf_val) else PyInt 0)"

definition memory_reduction :: "pyfloat \<Rightarrow> pyfloat \<Rightarrow> pynum" where
  "memory_reduction tf_val cf_val =
     (if float_gt tf_val (Fin False 0)
      then PyFloat (float_mul (float_sub (Fin False 1) (float_div cf_val tf_val)) (Fin False 100))
      else PyInt 0)"

definition cache_ratio :: "pyfloat \<Rightarrow> pyfloat \<Rightarrow> pynum" where
  "cache_ratio tf_val cf_val =
     (if float_gt tf_val (Fin False 0) then PyFloat (float_div cf_val tf_val) else PyInt 0)"

text \<open>
  One iteration of the loop: the entry appended to \<open>improvements\<close> for one row.
  \<open>format_f n x\<close> stands for the format specification \<open>{x:.nf}\<close> of the f-strings.
\<close>

definition improvement ::
  "(nat \<Rightarrow> pynum \<Rightarrow> pystr) \<Rightarrow> pystr \<Rightarrow> pyfloat \<Rightarrow> pyfloat \<Rightarrow> py_error + pystr" where
  "improvement format_f metric tf_val cf_val =
     (if contains (S ''Time'') metric then
        (let ratio = time_ratio tf_val cf_val in
         if num_gt ratio 1 then Inr (format_f 2 ratio @ S ''x faster'')
         else (case reciprocal ratio of
                 Inl e \<Rightarrow> Inl e
               | Inr q \<Rightarrow> Inr (format_f 2 q @ S ''x slower'')))
      else if contains (S ''Memory'') metric then
        (let reduction = memory_reduction tf_val cf_val in
         if num_gt reduction 0 then Inr (format_f 1 reduction @ S ''% less'')
         else Inr (format_f 1 (num_neg reduction) @ S ''% more''))
      else
        (let ratio = cache_ratio tf_val cf_val in
         if num_gt ratio 1 then Inr (format_f 1 ratio @ S ''x larger'')
         else (case reciprocal ratio of
                 Inl e \<Rightarrow> Inl e
               | Inr q \<Rightarrow> Inr (format_f 1 q @ S ''x smaller''))))"

text \<open>The data frame: its four columns.\<close>

record results_table =
  Metric :: "pystr list"
  Text_Fabric :: "pyfloat list"
  Context_Fabric :: "pyfloat list"
  CF_Improvement :: "pystr list"

definition metrics :: "pystr list" where
  "metrics = [S ''Compile Time (s)'', S ''Load Time (s)'', S ''Memory Used (MB)'', S ''Cache Size (MB)'']"

definition create_results_table ::
  "(nat \<Rightarrow> pynum \<Rightarrow> pystr) \<Rightarrow> BenchmarkResult \<Rightarrow> BenchmarkResult
     \<Rightarrow> py_error + results_table" where
  "create_results_table format_f tf_result cf_result =
     (let tf_col = [compile_time tf_result, load_time tf_result, memory_used tf_result,
                    cache_size tf_result];
          cf_col = [compile_time cf_result, load_time cf_result, memory_used cf_result,
                    cache_size cf_result]
      in case collect (map (\<lambda>i. improvement format_f (metrics ! i) (tf_col ! i) (cf_col ! i))
                           [0..<length metrics]) of
           Inl e \<Rightarrow> Inl e
         | Inr improvements \<Rightarrow>
             Inr \<lparr>Metric = metrics, Text_Fabric = tf_col, Context_Fabric = cf_col,
                  CF_Improvement = improvements\<rparr>)"

text \<open>Which branch each of the four metric names takes.\<close>

lemma metric_kinds:
  "contains (S ''Time'') (S ''Compile Time (s)'')"
  "contains (S ''Time'') (S ''Load Time (s)'')"
  "\<not> contains (S ''Time'') (S ''Memory Used (MB)'')"
  "contains (S ''Memory'') (S ''Memory Used (MB)'')"
  "\<not> contains (S ''Time'') (S ''Cache Size (MB)'')"
  "\<not> contains (S ''Memory'') (S ''Cache Size (MB)'')"
  by (simp_all add: S_def)

lemma upt_4: "[0..<4] = [0, 1, 2, 3]"
  by (simp add: upt_rec)

text \<open>
  Under its guard a ratio is the float quotient, not the \<open>int\<close> \<open>0\<close>, and then the
  iteration raises nothing.
\<close>

lemma time_ratio_guarded:
  "float_gt cf_val (Fin False 0) \<Longrightarrow> time_ratio tf_val cf_val = PyFloat (float_div tf_val cf_val)"
  by (simp add: time_ratio_def)

lemma cache_ratio_guarded:
  "float_gt tf_val (Fin False 0) \<Longrightarrow> cache_ratio tf_val cf_val = PyFloat (float_div cf_val tf_val)"
  by (simp add: cache_ratio_def)

lemma improvement_time:
  "contains (S ''Time'') metric \<Longrightarrow> float_gt cf_val (Fin False 0) \<Longrightarrow>
     \<exists>s. improvement format_f metric tf_val cf_val = Inr s"
  by (simp add: improvement_def Let_def time_ratio_guarded)

lemma improvement_memory:
  "\<not> contains (S ''Time'') metric \<Longrightarrow> contains (S ''Memory'') metric \<Longrightarrow>
     \<exists>s. improvement format_f metric tf_val cf_val = Inr s"
  by (simp add: improvement_def Let_def)

lemma improvement_cache:
  "\<not> contains (S ''Time'') metric \<Longrightarrow> \<not> contains (S ''Memory'') metric \<Longrightarrow>
   float_gt tf_val (Fin False 0) \<Longrightarrow>
     \<exists>s. improvement format_f metric tf_val cf_val = Inr s"
  by (simp add: improvement_def Let_def cache_ratio_guarded)

lemma create_results_table_rows:
  assumes "improvement format_f (S ''Compile Time (s)'')
             (compile_time tf_result) (compile_time cf_result) = Inr s0"
    and "improvement format_f (S ''Load Time (s)'')
             (load_time tf_result) (load_time cf_result) = Inr s1"
    and "improvement format_f (S ''Memory Used (MB)'')
             (memory_used tf_result) (memory_used cf_result) = Inr s2"
    and "improvement format_f (S ''Cache Size (MB)'')
             (cache_size tf_result) (cache_size cf_result) = Inr s3"
  shows "create_results_table format_f tf_result cf_result =
      Inr \<lparr>Metric = metrics,
           Text_Fabric = [compile_time tf_result, load_time tf_result, memory_used tf_result,
                          cache_size tf_result],
           Context_Fabric = [compile_time cf_result, load_time cf_result, memory_used cf_result,
                             cache_size cf_result],
           CF_Improvement = [s0, s1, s2, s3]\<rparr>"
  by (simp add: create_results_table_def metrics_def upt_4 assms)

text \<open>
  The three guards the loop evaluates are what keeps it from raising: the two
  Context-Fabric times and the Text-Fabric cache size.
\<close>

lemma create_results_table_guards:
  assumes "float_gt (compile_time cf_result) (Fin False 0)"
    and "float_gt (load_time cf_result) (Fin False 0)"
    and "float_gt (cache_size tf_result) (Fin False 0)"
  shows "\<exists>df. create_results_table format_f tf_result cf_result = Inr df
           \<and> length (CF_Improvement df) = length (Metric df)
           \<and> length (Metric df) = 4"
proof -
  obtain s0 where s0: "improvement format_f (S ''Compile Time (s)'')
      (compile_time tf_result) (compile_time cf_result) = Inr s0"
    using improvement_time [OF metric_kinds(1) assms(1)] by blast
  obtain s1 where s1: "improvement format_f (S ''Load Time (s)'')
      (load_time tf_result) (load_time cf_result) = Inr s1"
    using improvement_time [OF metric_kinds(2) assms(2)] by blast
  obtain s2 where s2: "improvement format_f (S ''Memory Used (MB)'')
      (memory_used tf_result) (memory_used cf_result) = Inr s2"
    using improvement_memory [OF metric_kinds(3) metric_kinds(4)] by blast
  obtain s3 where s3: "improvement format_f (S ''Cache Size (MB)'')
      (cache_size tf_result) (cache_size cf_result) = Inr s3"
    using improvement_cache [OF metric_kinds(5) metric_kinds(6) assms(3)] by blast
  have "length metrics = 4" by (simp add: metrics_def)
  with create_results_table_rows [OF s0 s1 s2 s3] show ?thesis by simp
qed

text \<open>
  C8, amended: when the compile time, the load time, the memory used and the cache size
  are strictly positive in both results, \<open>create_results_table\<close> returns a table (no
  \<open>ZeroDivisionError\<close>) with one \<open>CF Improvement\<close> entry for each of the four metrics, and
  every ratio whose reciprocal an else-branch may take is the float quotient, never the
  \<open>int\<close> \<open>0\<close> of the \<open>else 0\<close> alternative, so that \<open>1 / ratio\<close> cannot raise.
\<close>

theorem create_results_table_positive:
  assumes "float_gt (compile_time tf_result) (Fin False 0)"
      "float_gt (load_time tf_result) (Fin False 0)"
      "float_gt (memory_used tf_result) (Fin False 0)"
      "float_gt (cache_size tf_result) (Fin False 0)"
    and "float_gt (compile_time cf_result) (Fin False 0)"
      "float_gt (load_time cf_result) (Fin False 0)"
      "float_gt (memory_used cf_result) (Fin False 0)"
      "float_gt (cache_size cf_result) (Fin False 0)"
  shows "(\<exists>df. create_results_table format_f tf_result cf_result = Inr df
            \<and> length (CF_Improvement df) = length (Metric df)
            \<and> length (Metric df) = 4)
         \<and> time_ratio (compile_time tf_result) (compile_time cf_result)
             = PyFloat (float_div (compile_time tf_result) (compile_time cf_result))
         \<and> time_ratio (load_time tf_result) (load_time cf_result)
             = PyFloat (float_div (load_time tf_result) (load_time cf_result))
         \<and> cache_ratio (cache_size tf_result) (cache_size cf_result)
             = PyFloat (float_div (cache_size cf_result) (cache_size tf_result))"
  using create_results_table_guards [OF assms(5) assms(6) assms(4), of format_f]
    time_ratio_guarded [OF assms(5)] time_ratio_guarded [OF assms(6)]
    cache_ratio_guarded [OF assms(4)]
  by simp

text \<open>
  The guards are needed: where the first one fails, \<open>ratio\<close> is the \<open>int\<close> \<open>0\<close>, the
  else-branch computes \<open>1 / 0\<close>, and the call raises.
\<close>

lemma create_results_table_unguarded:
  assumes "\<not> float_gt (compile_time cf_result) (Fin False 0)"
  shows "create_results_table format_f tf_result cf_result = Inl ZeroDivisionError"
proof -
  have "improvement format_f (S ''Compile Time (s)'')
      (compile_time tf_result) (compile_time cf_result) = Inl ZeroDivisionError"
    using assms by (simp add: improvement_def metric_kinds time_ratio_def)
  then show ?thesis by (simp add: create_results_table_def metrics_def upt_4)
qed

text \<open>
  Two facts about rounding: a magnitude below half of the smallest positive number of the
  format rounds to zero, and no magnitude from the smallest positive number on does.
\<close>

lemma round_mag_underflow:
  assumes "0 \<le> m" "m < 1 / 2 ^ 1075"
  shows "round_mag m = 0"
proof -
  let ?M = "m * 2 ^ 1074"
  have "?M < 1 / 2 ^ 1075 * 2 ^ 1074" using assms(2) by (simp add: mult_strict_right_mono)
  then have half: "?M < 1 / 2" by simp
  have nonneg: "0 \<le> ?M" using assms(1) by simp
  have fl: "\<lfloor>?M\<rfloor> = 0" using half nonneg by (simp add: floor_eq_iff)
  then have q: "quantum m = 0" by (simp add: quantum_def)
  have "round_half_even ?M = 0" using half fl by (simp add: round_half_even_def Let_def)
  with q show ?thesis by (simp add: round_mag_def)
qed

lemma round_half_even_floor: "\<lfloor>q\<rfloor> \<le> round_half_even q"
  by (simp add: round_half_even_def Let_def)

lemma scaled_floor_ge_1:
  fixes M :: rat
  assumes "1 \<le> M"
  shows "1 \<le> \<lfloor>M / 2 ^ nat (bitlen \<lfloor>M\<rfloor> - 53)\<rfloor>"
proof -
  let ?t = "\<lfloor>M\<rfloor>"
  let ?q = "nat (bitlen ?t - 53)"
  from assms have t1: "1 \<le> ?t" by simp
  have "1 \<le> M / 2 ^ ?q"
  proof (cases "bitlen ?t \<le> 53")
    case True
    then have "?q = 0" by simp
    with assms show ?thesis by simp
  next
    case False
    then have q: "int ?q = bitlen ?t - 53" by simp
    from t1 have "0 < ?t" by linarith
    from bitlen_bounds [OF this] have "2 ^ nat (bitlen ?t - 1) \<le> ?t" by simp
    moreover have "nat (bitlen ?t - 1) = ?q + 52" using q False by linarith
    ultimately have "2 ^ (?q + 52) \<le> ?t" by simp
    then have "(of_int (2 ^ (?q + 52)) :: rat) \<le> of_int ?t" by (simp only: of_int_le_iff)
    also have "\<dots> \<le> M" by simp
    finally have "(2::rat) ^ (?q + 52) \<le> M" by simp
    then have "(2::rat) ^ 52 * 2 ^ ?q \<le> M" by (simp only: power_add mult.commute)
    then have "(2::rat) ^ 52 \<le> M / 2 ^ ?q" by (simp only: pos_le_divide_eq zero_less_power zero_less_numeral)
    moreover have "(1::rat) \<le> 2 ^ 52" by simp
    ultimately show ?thesis by linarith
  qed
  then show ?thesis by simp
qed

lemma round_mag_pos:
  assumes "1 / 2 ^ 1074 \<le> m"
  shows "0 < round_mag m"
proof -
  have M1: "1 \<le> m * 2 ^ 1074" using assms by (simp add: pos_divide_le_eq)
  from scaled_floor_ge_1 [OF M1] have "1 \<le> \<lfloor>m * 2 ^ 1074 / 2 ^ quantum m\<rfloor>"
    by (simp only: quantum_def)
  with round_half_even_floor [of "m * 2 ^ 1074 / 2 ^ quantum m"]
  have "0 < round_half_even (m * 2 ^ 1074 / 2 ^ quantum m)" by linarith
  then show ?thesis by (simp add: round_mag_def)
qed

lemma mk_float_positive:
  "1 / 2 ^ 1074 \<le> m \<Longrightarrow> float_gt (mk_float False m) (Fin False 0)"
  using round_mag_pos [of m] by (simp add: mk_float_def Let_def)

lemma mk_float_not_zero:
  "1 / 2 ^ 1074 \<le> m \<Longrightarrow> \<not> is_zero (mk_float s m)"
  using round_mag_pos [of m] by (simp add: mk_float_def Let_def)

lemma mk_float_underflow:
  "0 \<le> m \<Longrightarrow> m < 1 / 2 ^ 1075 \<Longrightarrow> mk_float s m = Fin s 0"
  by (simp add: mk_float_def round_mag_underflow)

text \<open>A pair of results of ordinary size.\<close>

definition tf_sample :: BenchmarkResult where
  "tf_sample = \<lparr>name = S ''Text-Fabric'', compile_time = Fin False 60, load_time = Fin False 8,
                 memory_before = Fin False 100, memory_after = Fin False 6100,
                 cache_size = Fin False 140\<rparr>"

definition cf_sample :: BenchmarkResult where
  "cf_sample = \<lparr>name = S ''Context-Fabric'', compile_time = Fin False 90,
                 load_time = Fin False (1 / 2), memory_before = Fin False 100,
                 memory_after = Fin False 400, cache_size = Fin False 850\<rparr>"

lemma samples_positive:
  "float_gt (compile_time tf_sample) (Fin False 0)" "float_gt (load_time tf_sample) (Fin False 0)"
  "float_gt (memory_used tf_sample) (Fin False 0)" "float_gt (cache_size tf_sample) (Fin False 0)"
  "float_gt (compile_time cf_sample) (Fin False 0)" "float_gt (load_time cf_sample) (Fin False 0)"
  "float_gt (memory_used cf_sample) (Fin False 0)" "float_gt (cache_size cf_sample) (Fin False 0)"
  by (simp_all add: tf_sample_def cf_sample_def memory_used_def float_sub_def mk_float_positive)

theorem create_results_table_positive_witness:
  "float_gt (compile_time tf_sample) (Fin False 0) \<and> float_gt (load_time tf_sample) (Fin False 0)
   \<and> float_gt (memory_used tf_sample) (Fin False 0) \<and> float_gt (cache_size tf_sample) (Fin False 0)
   \<and> float_gt (compile_time cf_sample) (Fin False 0) \<and> float_gt (load_time cf_sample) (Fin False 0)
   \<and> float_gt (memory_used cf_sample) (Fin False 0) \<and> float_gt (cache_size cf_sample) (Fin False 0)
   \<and> (\<exists>df. create_results_table (\<lambda>n x. []) tf_sample cf_sample = Inr df
          \<and> length (CF_Improvement df) = 4)
   \<and> time_ratio (compile_time tf_sample) (compile_time cf_sample)
       = PyFloat (float_div (Fin False 60) (Fin False 90))"
proof -
  have "compile_time tf_sample = Fin False 60" "compile_time cf_sample = Fin False 90"
    by (simp_all add: tf_sample_def cf_sample_def)
  with create_results_table_positive [OF samples_positive, of "\<lambda>n x. []"] samples_positive
  show ?thesis by auto
qed

text \<open>
  C8 as stated fails in its last clause. Both \<open>2 ^ -600\<close> and \<open>2 ^ 600\<close> are numbers of the
  format, and every metric of the two results below is strictly positive; the quotient
  of the compile times is \<open>2 ^ -1200\<close>, which rounds to \<open>0.0\<close>. So the else-branch of the
  time metric is reached with \<open>ratio\<close> zero; \<open>1 / ratio\<close> is then \<open>inf\<close>, and the entry of
  the row reads \<open>infx slower\<close>.
\<close>

definition tf_underflow :: BenchmarkResult where
  "tf_underflow = \<lparr>name = S ''Text-Fabric'', compile_time = Fin False (1 / 2 ^ 600),
                    load_time = Fin False 1, memory_before = Fin False 0,
                    memory_after = Fin False 1, cache_size = Fin False 1\<rparr>"

definition cf_underflow :: BenchmarkResult where
  "cf_underflow = \<lparr>name = S ''Context-Fabric'', compile_time = Fin False (2 ^ 600),
                    load_time = Fin False 1, memory_before = Fin False 0,
                    memory_after = Fin False 1, cache_size = Fin False 1\<rparr>"

lemma underflow_ratio:
  "time_ratio (compile_time tf_underflow) (compile_time cf_underflow) = PyFloat (Fin False 0)"
proof -
  have "(1 / 2 ^ 600 / 2 ^ 600 :: rat) = 1 / 2 ^ 1200" by simp
  moreover have "(1 / 2 ^ 1200 :: rat) < 1 / 2 ^ 1075" by simp
  moreover have "(0::rat) \<le> 1 / 2 ^ 1200" by simp
  ultimately have "mk_float False (1 / 2 ^ 600 / 2 ^ 600) = Fin False 0"
    using mk_float_underflow [of "1 / 2 ^ 1200" False] by (simp only:)
  then show ?thesis
    by (simp add: time_ratio_def tf_underflow_def cf_underflow_def del: divide_divide_eq_left)
qed

lemma underflow_positive:
  "float_gt (compile_time tf_underflow) (Fin False 0)"
  "float_gt (load_time tf_underflow) (Fin False 0)"
  "float_gt (memory_used tf_underflow) (Fin False 0)"
  "float_gt (cache_size tf_underflow) (Fin False 0)"
  "float_gt (compile_time cf_underflow) (Fin False 0)"
  "float_gt (load_time cf_underflow) (Fin False 0)"
  "float_gt (memory_used cf_underflow) (Fin False 0)"
  "float_gt (cache_size cf_underflow) (Fin False 0)"
  by (simp_all add: tf_underflow_def cf_underflow_def memory_used_def float_sub_def
      mk_float_positive)

lemma underflow_improvement:
  "improvement format_f (S ''Compile Time (s)'')
     (compile_time tf_underflow) (compile_time cf_underflow)
   = Inr (format_f 2 (PyFloat (Inf False)) @ S ''x slower'')"
  by (simp add: improvement_def metric_kinds underflow_ratio)

text \<open>
  The counterexample to C8: all eight metrics are strictly positive, and the else-branch
  of the compile-time row is taken (\<open>ratio > 1\<close> is false) with \<open>ratio\<close> equal to zero; its
  reciprocal is \<open>inf\<close>.
\<close>

theorem create_results_table_underflow:
  "float_gt (compile_time tf_underflow) (Fin False 0)
   \<and> float_gt (load_time tf_underflow) (Fin False 0)
   \<and> float_gt (memory_used tf_underflow) (Fin False 0)
   \<and> float_gt (cache_size tf_underflow) (Fin False 0)
   \<and> float_gt (compile_time cf_underflow) (Fin False 0)
   \<and> float_gt (load_time cf_underflow) (Fin False 0)
   \<and> float_gt (memory_used cf_underflow) (Fin False 0)
   \<and> float_gt (cache_size cf_underflow) (Fin False 0)
   \<and> num_is_zero (time_ratio (compile_time tf_underflow) (compile_time cf_underflow))
   \<and> \<not> num_gt (time_ratio (compile_time tf_underflow) (compile_time cf_underflow)) 1
   \<and> reciprocal (time_ratio (compile_time tf_underflow) (compile_time cf_underflow))
       = Inr (PyFloat (Inf False))"
  using underflow_positive by (simp add: underflow_ratio)

section \<open>The Fabric facade: \<open>load\<close> and \<open>loadAll\<close>\<close>

text \<open>
  Modelled from the spec: the compiled store of section 4.3 (the storage code is not among
  the sources), reduced to what the facade needs of it: the names of the node features
  and of the edge features it holds.
\<close>

record store =
  node_features :: "string list"
  edge_features :: "string list"

text \<open>
  Modelled from the spec: what \<open>Fabric(locations, silent)\<close> locates (section 4.8), a
  compatible store under \<open><locations>/<store_dir>/<version>/\<close> and/or the source: the node
  feature files and the edge feature files of the directory. \<open>None\<close> is a store or a
  directory that does not exist.
\<close>

record location =
  compiled :: "store option"
  source :: "(string list \<times> string list) option"

text \<open>
  Modelled from the spec: the Compiler of section 4.4 (not among the sources), reduced to
  whether it succeeds: a missing required file (\<open>otype\<close>, \<open>oslots\<close>) is fatal.
\<close>

definition compile :: "string list \<times> string list \<Rightarrow> store option" where
  "compile src =
     (if ''otype'' \<in> set (fst src) \<and> ''oslots'' \<in> set (snd src)
      then Some \<lparr>node_features = fst src, edge_features = snd src\<rparr>
      else None)"

text \<open>
  Modelled from the spec: steps 1 and 2 of \<open>load\<close> in section 4.8. If a compatible store
  exists it is opened; otherwise the Compiler runs, and the store it wrote is opened.
\<close>

definition open_store :: "location \<Rightarrow> (store \<times> location) option" where
  "open_store loc =
     (case compiled loc of
        Some st \<Rightarrow> Some (st, loc)
      | None \<Rightarrow>
          (case source loc of
             None \<Rightarrow> None
           | Some src \<Rightarrow>
               (case compile src of
                  None \<Rightarrow> None
                | Some st \<Rightarrow> Some (st, loc\<lparr>compiled := Some st\<rparr>))))"










definition mini_corpus :: location where
  "mini_corpus = \<lparr>compiled = None,
     source = Some ([''otype'', ''word'', ''pos''], [''oslots'', ''parent''])\<rparr>"


text \<open>
  The model run on the scenarios of \<open>test_loading.py\<close>.
\<close>

lemma open_mini_corpus:
  "open_store mini_corpus =
     Some (\<lparr>node_features = [''otype'', ''word'', ''pos''], edge_features = [''oslots'', ''parent'']\<rparr>,
           mini_corpus\<lparr>compiled := Some \<lparr>node_features = [''otype'', ''word'', ''pos''],
                                          edge_features = [''oslots'', ''parent'']\<rparr>\<rparr>)"
  by (simp add: open_store_def mini_corpus_def compile_def)













section \<open>Computed indices: \<open>rank\<close> and \<open>order\<close>\<close>

text \<open>
  Modelled from the spec: the sort key of a node (section 4.6; the code of the computed
  indices is not among the sources), \<open>(min_slot, - max_slot, - embedding_level)\<close>. The rows
  of \<open>oslots\<close> are strictly increasing, so the minimum is the first slot and the maximum
  the last; the row of a slot \<open>s\<close> is \<open>[s]\<close>. The slots of a node and the embedding level
  of its type are parameters.
\<close>

definition sort_key_of :: "(nat \<Rightarrow> nat list) \<Rightarrow> (nat \<Rightarrow> nat) \<Rightarrow> nat \<Rightarrow> nat \<times> int \<times> int" where
  "sort_key_of oslots level n = (hd (oslots n), - int (last (oslots n)), - int (level n))"

text \<open>
  Modelled from the spec: \<open>order\<close>, the nodes \<open>1..maxNode\<close> sorted by the key, the sort stable
  (nodes with equal keys stay in ascending node order).
\<close>

definition compute_order :: "(nat \<Rightarrow> nat list) \<Rightarrow> (nat \<Rightarrow> nat) \<Rightarrow> nat \<Rightarrow> nat list" where
  "compute_order oslots level maxNode = sort_key (sort_key_of oslots level) [1..<Suc maxNode]"

text \<open>
  Modelled from the spec: \<open>rank\<close>, the inverse of \<open>order\<close>, filled by one pass over
  \<open>order\<close>: the node at position \<open>i\<close> gets rank \<open>i\<close>.
\<close>

fun scatter :: "nat list \<Rightarrow> nat \<Rightarrow> nat list \<Rightarrow> nat list" where
  "scatter [] i rank = rank"
| "scatter (n # ns) i rank = scatter ns (Suc i) (rank[n - 1 := i])"

definition compute_rank :: "nat list \<Rightarrow> nat list" where
  "compute_rank order = scatter order 1 (replicate (length order) 0)"

text \<open>
  Both arrays are indexed from 1: \<open>entry arr i\<close> is \<open>arr[i]\<close>.
\<close>

definition entry :: "nat list \<Rightarrow> nat \<Rightarrow> nat" where
  "entry arr i = arr ! (i - 1)"

lemma length_scatter: "length (scatter ns i rank) = length rank"
  by (induction ns i rank rule: scatter.induct) simp_all

lemma scatter_untouched:
  "\<forall>n \<in> set ns. n - 1 \<noteq> k \<Longrightarrow> scatter ns i rank ! k = rank ! k"
  by (induction ns i rank rule: scatter.induct) simp_all

lemma scatter_nth:
  assumes "distinct ns" "\<forall>n \<in> set ns. 1 \<le> n \<and> n \<le> length rank" "j < length ns"
  shows "scatter ns i rank ! (ns ! j - 1) = i + j"
  using assms
proof (induction ns i rank arbitrary: j rule: scatter.induct)
  case (1 i rank)
  then show ?case by simp
next
  case (2 n ns i rank)
  show ?case
  proof (cases j)
    case 0
    have "\<forall>m \<in> set ns. m - 1 \<noteq> n - 1"
    proof
      fix m assume m: "m \<in> set ns"
      with 2(2) have "m \<noteq> n" by auto
      moreover from m 2(3) have "1 \<le> m" "1 \<le> n" by simp_all
      ultimately show "m - 1 \<noteq> n - 1" by arith
    qed
    then have "scatter ns (Suc i) (rank[n - 1 := i]) ! (n - 1) = rank[n - 1 := i] ! (n - 1)"
      by (rule scatter_untouched)
    moreover from 2(3) have "1 \<le> n" "n \<le> length rank" by simp_all
    then have "n - 1 < length rank" by arith
    ultimately show ?thesis using 0 by simp
  next
    case (Suc j')
    with 2 show ?thesis by simp
  qed
qed

lemma order_perm: "mset (compute_order oslots level maxNode) = mset [1..<Suc maxNode]"
  by (simp add: compute_order_def)

lemma order_facts:
  "distinct (compute_order oslots level maxNode)"
  "set (compute_order oslots level maxNode) = {1..maxNode}"
  "length (compute_order oslots level maxNode) = maxNode"
proof -
  let ?o = "compute_order oslots level maxNode"
  show "distinct ?o" by (simp add: compute_order_def)
  show "set ?o = {1..maxNode}" by (auto simp add: compute_order_def)
  show "length ?o = maxNode" by (simp add: compute_order_def)
qed

lemma rank_order:
  assumes "1 \<le> i" "i \<le> maxNode"
  shows "entry (compute_rank (compute_order oslots level maxNode))
            (entry (compute_order oslots level maxNode) i) = i"
proof -
  let ?o = "compute_order oslots level maxNode"
  have d: "distinct ?o" by (rule order_facts)
  have s: "\<forall>n \<in> set ?o. 1 \<le> n \<and> n \<le> length (replicate (length ?o) (0::nat))"
    by (simp add: order_facts)
  have j: "i - 1 < length ?o" using assms by (simp add: order_facts)
  have "scatter ?o 1 (replicate (length ?o) 0) ! (?o ! (i - 1) - 1) = 1 + (i - 1)"
    by (rule scatter_nth [OF d s j])
  with assms show ?thesis by (simp add: entry_def compute_rank_def)
qed

lemma order_rank:
  assumes "1 \<le> n" "n \<le> maxNode"
  shows "entry (compute_order oslots level maxNode)
            (entry (compute_rank (compute_order oslots level maxNode)) n) = n"
proof -
  let ?o = "compute_order oslots level maxNode"
  from assms have "n \<in> set ?o" by (simp add: order_facts)
  then obtain j where j: "j < length ?o" "?o ! j = n" by (auto simp: in_set_conv_nth)
  then have i: "1 \<le> Suc j" "Suc j \<le> maxNode" by (simp_all add: order_facts)
  from rank_order [OF i, of oslots level] j have "entry (compute_rank ?o) n = Suc j"
    by (simp add: entry_def)
  with j show ?thesis by (simp add: entry_def)
qed

lemma rank_perm:
  "mset (compute_rank (compute_order oslots level maxNode)) = mset [1..<Suc maxNode]"
proof -
  let ?o = "compute_order oslots level maxNode"
  let ?r = "compute_rank ?o"
  have len: "length ?r = maxNode" by (simp add: compute_rank_def length_scatter order_facts)
  have ord_rank: "entry ?o (?r ! k) = Suc k" if "k < maxNode" for k
    using order_rank [of "Suc k" maxNode oslots level] that by (simp add: entry_def)
  have "distinct ?r"
    unfolding distinct_conv_nth
  proof (intro allI impI)
    fix k k' assume a: "k < length ?r" "k' < length ?r" "k \<noteq> k'"
    show "?r ! k \<noteq> ?r ! k'"
    proof
      assume "?r ! k = ?r ! k'"
      then have "entry ?o (?r ! k) = entry ?o (?r ! k')" by simp
      with a(1,2) len have "Suc k = Suc k'" by (simp only: ord_rank)
      with a(3) show False by simp
    qed
  qed
  moreover have "set ?r \<subseteq> {1..maxNode}"
  proof
    fix x assume "x \<in> set ?r"
    then obtain k where k: "k < maxNode" "?r ! k = x" using len by (auto simp: in_set_conv_nth)
    then have "Suc k \<in> set ?o" by (simp add: order_facts)
    then obtain j where j: "j < length ?o" "?o ! j = Suc k" by (auto simp: in_set_conv_nth)
    then have i: "1 \<le> Suc j" "Suc j \<le> maxNode" by (simp_all add: order_facts)
    from rank_order [OF i, of oslots level] j have "entry ?r (Suc k) = Suc j" by (simp add: entry_def)
    with k i show "x \<in> {1..maxNode}" by (simp add: entry_def)
  qed
  moreover have "card (set ?r) = card {1..maxNode}"
    using \<open>distinct ?r\<close> len by (simp add: distinct_card)
  ultimately have "set ?r = {1..maxNode}"
    by (intro card_subset_eq) simp_all
  moreover have "set [1..<Suc maxNode] = {1..maxNode}"
    by (simp only: set_upt atLeastLessThanSuc_atLeastAtMost)
  ultimately have "set ?r = set [1..<Suc maxNode]"
    by (simp only:)
  with \<open>distinct ?r\<close> show ?thesis
    by (simp add: set_eq_iff_mset_eq_distinct [symmetric])
qed

text \<open>
  C4: \<open>order\<close> and \<open>rank\<close> are permutations of \<open>[1..maxNode]\<close> and inverse to each other:
  \<open>rank[order[i]] = i\<close> for every index \<open>i\<close> and \<open>order[rank[n]] = n\<close> for every node \<open>n\<close>.
\<close>

theorem rank_order_inverse_permutations:
  "(let order = compute_order oslots level maxNode; rank = compute_rank order in
      mset order = mset [1..<Suc maxNode] \<and> mset rank = mset [1..<Suc maxNode]
      \<and> (\<forall>i. 1 \<le> i \<and> i \<le> maxNode \<longrightarrow> entry rank (entry order i) = i)
      \<and> (\<forall>n. 1 \<le> n \<and> n \<le> maxNode \<longrightarrow> entry order (entry rank n) = n))"
  by (simp add: Let_def order_perm rank_perm rank_order order_rank)

text \<open>
  The tiny corpus of scenario S1 of the spec: slots 1 to 3, and the sentences 4 and 5 on
  the slots \<open>[1, 2]\<close> and \<open>[2, 3]\<close>.
\<close>

definition s1_oslots :: "nat \<Rightarrow> nat list" where
  "s1_oslots n = (if n = 4 then [1, 2] else if n = 5 then [2, 3] else [n])"

definition s1_level :: "nat \<Rightarrow> nat" where
  "s1_level n = (if n \<le> 3 then 0 else 1)"

lemma s1_order: "compute_order s1_oslots s1_level 5 = [4, 1, 5, 2, 3]"
  by code_simp

lemma s1_rank: "compute_rank [4, 1, 5, 2, 3] = [2, 4, 5, 1, 3]"
  by code_simp

theorem rank_order_inverse_permutations_witness:
  "entry (compute_rank (compute_order s1_oslots s1_level 5))
         (entry (compute_order s1_oslots s1_level 5) 3) = 3
   \<and> entry (compute_order s1_oslots s1_level 5)
         (entry (compute_rank (compute_order s1_oslots s1_level 5)) 5) = 5
   \<and> compute_order s1_oslots s1_level 5 = [4, 1, 5, 2, 3]
   \<and> compute_rank (compute_order s1_oslots s1_level 5) = [2, 4, 5, 1, 3]"
proof -
  note t = rank_order_inverse_permutations [of s1_oslots s1_level 5, unfolded Let_def]
  have b3: "1 \<le> (3::nat) \<and> (3::nat) \<le> 5" and b5: "1 \<le> (5::nat) \<and> (5::nat) \<le> 5"
    by simp_all
  from t b3 have "entry (compute_rank (compute_order s1_oslots s1_level 5))
         (entry (compute_order s1_oslots s1_level 5) 3) = 3" by blast
  moreover from t b5 have "entry (compute_order s1_oslots s1_level 5)
         (entry (compute_rank (compute_order s1_oslots s1_level 5)) 5) = 5" by blast
  moreover have "compute_rank (compute_order s1_oslots s1_level 5) = [2, 4, 5, 1, 3]"
    by (simp only: s1_order s1_rank)
  ultimately show ?thesis using s1_order by blast
qed

end
